theory Spec2Isabelle
  imports Main "HOL-Library.Word"
begin

section \<open>Go values and the observable effects of \<^verbatim>\<open>cmd/get-commenters.go\<close>\<close>

text \<open>
  Go's \<^verbatim>\<open>int\<close> is taken as the 64-bit machine integer: \<open>+\<close> wraps around.
  A string is a list of bytes. A \<^verbatim>\<open>nil\<close> slice is the empty list.
\<close>

type_synonym go_int = "64 word"

definition len :: "'a list \<Rightarrow> go_int" where
  "len xs = of_nat (length xs)"

text \<open>A function either returns or panics (an index out of range).\<close>

datatype 'a result = Return 'a | Panic

definition index :: "'a list \<Rightarrow> nat \<Rightarrow> 'a result" where
  "index xs i = (if i < length xs then Return (xs ! i) else Panic)"

datatype go_error = PathError | EOF | ErrFieldCount | ParseError | BarError

text \<open>
  What the program does to the outside is recorded as a list of events, in order: the
  calls of \<^verbatim>\<open>fmt.Printf\<close>/\<^verbatim>\<open>fmt.Println\<close> (standard output),
  \<^verbatim>\<open>log.Printf\<close>, \<^verbatim>\<open>loggers.debug.Printf\<close>, \<^verbatim>\<open>os.Remove\<close>, and the calls of
  the collaborators. A print is recorded with its format string and its arguments, as the
  source passes them; the rendering is the library's. \<open>GetCommenters\<close> records the four
  arguments of a call of \<^verbatim>\<open>getCommenters\<close> and the count it returned.
\<close>

datatype arg = Str string | Num go_int | Err "go_error option"

datatype event =
    Printf string "arg list"
  | Println string
  | LogPrintf string "arg list"
  | DebugPrintf string "arg list"
  | OsRemove string
  | CheckIfSufficientQuota go_int
  | ProgressbarDefault go_int
  | BarAdd go_int
  | GetCommenters string bool bool string go_int

section \<open>The header check\<close>

definition referenceCSVheader :: "string list" where
  "referenceCSVheader =
     [''org'', ''repository'', ''number'', ''url'', ''state'', ''created_at'', ''merged_at'',
      ''user.login'', ''month_year'', ''title'']"

text \<open>
  \<^verbatim>\<open>for i, v := range header\<close> of \<^verbatim>\<open>validateHeader\<close>, from index \<open>i\<close> on. The
  read \<^verbatim>\<open>referenceHeader[i]\<close> panics out of range.
\<close>

fun validateHeader_range :: "nat \<Rightarrow> string list \<Rightarrow> string list \<Rightarrow> bool \<Rightarrow> event list \<times> bool result" where
  "validateHeader_range i [] referenceHeader isVerbose = ([], Return True)"
| "validateHeader_range i (v # rest) referenceHeader isVerbose =
     (case index referenceHeader i of
        Panic \<Rightarrow> ([], Panic)
      | Return w \<Rightarrow>
          if v \<noteq> w then
            (if isVerbose then
               [Printf '' Error: not the expected header field at column %d (found \"%v\", wanted \"%v\")\<newline>''
                  [Num (of_nat i + 1), Str v, Str w]]
             else [],
             Return False)
          else validateHeader_range (Suc i) rest referenceHeader isVerbose)"

definition validateHeader :: "string list \<Rightarrow> string list \<Rightarrow> bool \<Rightarrow> event list \<times> bool result" where
  "validateHeader header referenceHeader isVerbose =
     (if length header \<noteq> length referenceHeader then
        (if isVerbose then
           [Printf '' Error: field number mismatch (found %d, wanted %d)\<newline>''
              [Num (len header), Num (len referenceHeader)]]
         else [],
         Return False)
      else validateHeader_range 0 header referenceHeader isVerbose)"

section \<open>Collaborators\<close>

text \<open>
  The code outside \<^verbatim>\<open>cmd/get-commenters.go\<close> that the file calls, as parameters. The
  outside world (file system, network, the progress bar) is a value of type \<open>'w\<close> that
  only the collaborators read and change.
  \<^item> \<open>osOpen\<close>: \<^verbatim>\<open>os.Open\<close> and what \<^verbatim>\<open>csv.NewReader\<close> will find in the file, or
    \<open>None\<close> when the file cannot be opened;
  \<^item> \<open>isValidOrgFormat\<close>: the organisation-name predicate of this repository;
  \<^item> \<open>strings_ToLower\<close>: \<^verbatim>\<open>strings.ToLower\<close>;
  \<^item> \<open>fileExist\<close>, \<open>osRemove\<close>: the repository's \<^verbatim>\<open>fileExist\<close> and \<^verbatim>\<open>os.Remove\<close>;
  \<^item> \<open>quotaRemaining\<close>, \<open>projectedCost\<close>: the figures \<^verbatim>\<open>checkIfSufficientQuota\<close>
    compares;
  \<^item> \<open>getCommenters\<close>: the fetch collaborator, returning the number of comments;
  \<^item> \<open>barAdd\<close>: \<^verbatim>\<open>bar.Add\<close> of the progress bar, returning its error.
\<close>

datatype csv_record = Record "string list" | Malformed

record 'w collaborators =
  osOpen :: "string \<Rightarrow> 'w \<Rightarrow> csv_record list option"
  isValidOrgFormat :: "string \<Rightarrow> bool"
  strings_ToLower :: "string \<Rightarrow> string"
  fileExist :: "string \<Rightarrow> 'w \<Rightarrow> bool"
  osRemove :: "string \<Rightarrow> 'w \<Rightarrow> 'w"
  quotaRemaining :: "'w \<Rightarrow> nat"
  projectedCost :: "go_int \<Rightarrow> nat"
  getCommenters :: "string \<Rightarrow> bool \<Rightarrow> bool \<Rightarrow> string \<Rightarrow> 'w \<Rightarrow> go_int \<times> 'w"
  barAdd :: "go_int \<Rightarrow> 'w \<Rightarrow> go_error option \<times> 'w"

section \<open>The reader of \<^verbatim>\<open>encoding/csv\<close>\<close>

text \<open>
  The file as the reader sees it: a list of records (each a list of fields) and of places
  where the text is malformed. With \<^verbatim>\<open>FieldsPerRecord\<close> zero, as \<^verbatim>\<open>csv.NewReader\<close>
  leaves it, \<^verbatim>\<open>Read\<close> sets it to the number of fields of the first record, and every
  later record with another number of fields is the error \<^verbatim>\<open>ErrFieldCount\<close>.
  \<^verbatim>\<open>ReadAll\<close> reads the remaining records up to the end of the file and returns the first
  error it meets.
\<close>

record csv_Reader =
  FieldsPerRecord :: nat
  input :: "csv_record list"

definition csv_NewReader :: "csv_record list \<Rightarrow> csv_Reader" where
  "csv_NewReader f = \<lparr>FieldsPerRecord = 0, input = f\<rparr>"

definition csv_Read :: "csv_Reader \<Rightarrow> (go_error + string list) \<times> csv_Reader" where
  "csv_Read r =
     (case input r of
        [] \<Rightarrow> (Inl EOF, r)
      | Malformed # rest \<Rightarrow> (Inl ParseError, r\<lparr>input := rest\<rparr>)
      | Record line # rest \<Rightarrow>
          if 0 < FieldsPerRecord r then
            (if length line \<noteq> FieldsPerRecord r then (Inl ErrFieldCount, r\<lparr>input := rest\<rparr>)
             else (Inr line, r\<lparr>input := rest\<rparr>))
          else (Inr line, r\<lparr>FieldsPerRecord := length line, input := rest\<rparr>))"

function csv_ReadAll :: "csv_Reader \<Rightarrow> string list list \<Rightarrow> go_error + string list list" where
  "csv_ReadAll r records =
     (case csv_Read r of
        (Inl err, r') \<Rightarrow> if err = EOF then Inr records else Inl err
      | (Inr record, r') \<Rightarrow> csv_ReadAll r' (records @ [record]))"
  by pat_completeness auto
termination
  by (relation "measure (\<lambda>(r, records). length (input r))")
    (auto simp: csv_Read_def split: list.splits csv_record.splits if_splits)

declare csv_ReadAll.simps [simp del]

section \<open>Loading the list of pull requests\<close>

text \<open>The two regular expressions, \<^verbatim>\<open>^[\w-\.]+$\<close> and \<^verbatim>\<open>^\d+$\<close>: one or more bytes of the
  class, from the start of the string to its end. In Go \<^verbatim>\<open>\w\<close> is \<^verbatim>\<open>[0-9A-Za-z_]\<close> and
  \<^verbatim>\<open>\d\<close> is \<^verbatim>\<open>[0-9]\<close>.\<close>

definition word_chars :: string where
  "word_chars = ''0123456789ABCDEFGHIJKLMNOPQRSTUVWXYZ_abcdefghijklmnopqrstuvwxyz''"

definition digit_chars :: string where
  "digit_chars = ''0123456789''"

definition prj_regexp_MatchString :: "string \<Rightarrow> bool" where
  "prj_regexp_MatchString s =
     (s \<noteq> [] \<and> list_all (\<lambda>ch. ch \<in> set word_chars \<or> ch = CHR ''-'' \<or> ch = CHR ''.'') s)"

definition pr_regexp_MatchString :: "string \<Rightarrow> bool" where
  "pr_regexp_MatchString s = (s \<noteq> [] \<and> list_all (\<lambda>ch. ch \<in> set digit_chars) s)"

text \<open>
  The body of the loop \<^verbatim>\<open>for _, dataLine := range records\<close>: \<open>Return None\<close> is the
  early \<^verbatim>\<open>return nil, false\<close>, \<open>Return (Some prInfo)\<close> the string appended to
  \<^verbatim>\<open>prList\<close>.
\<close>

definition checkDataLine ::
  "'w collaborators \<Rightarrow> bool \<Rightarrow> bool \<Rightarrow> string list \<Rightarrow> event list \<times> string option result" where
  "checkDataLine c isRootDebug isVerbose dataLine =
     (case index dataLine 0 of
        Panic \<Rightarrow> ([], Panic)
      | Return org \<Rightarrow>
          if \<not> isValidOrgFormat c org then
            ((if isVerbose then
                [Printf '' Error: ORG field \"%s\" doesn't seem to be a valid GitHub org.\<newline>'' [Str org]]
              else []) @
             (if isRootDebug then
                [DebugPrintf '' Error: ORG field \"%s\" doesn't seem to be a valid GitHub org.\<newline>'' [Str org]]
              else []),
             Return None)
          else
            (case index dataLine 1 of
               Panic \<Rightarrow> ([], Panic)
             | Return prj \<Rightarrow>
                 if \<not> prj_regexp_MatchString (strings_ToLower c prj) then
                   ((if isVerbose then
                       [Printf '' Error: PRJ field \"%s\" is not of the expected format'' [Str prj]]
                     else []) @
                    (if isRootDebug then
                       [DebugPrintf '' Error: PRJ field \"%s\" is not of the expected format'' [Str prj]]
                     else []),
                    Return None)
                 else
                   (case index dataLine 2 of
                      Panic \<Rightarrow> ([], Panic)
                    | Return prNbr \<Rightarrow>
                        if \<not> pr_regexp_MatchString prNbr then
                          ((if isVerbose then
                              [Printf '' Error: PR field \"%s\" is not a (positive) number'' [Str prNbr]]
                            else []) @
                           (if isRootDebug then
                              [DebugPrintf '' Error: PR field \"%s\" is not a (positive) number'' [Str prNbr]]
                            else []),
                           Return None)
                        else ([], Return (Some (org @ ''/'' @ prj @ ''/'' @ prNbr))))))"

fun checkRecords ::
  "'w collaborators \<Rightarrow> bool \<Rightarrow> bool \<Rightarrow> string list list \<Rightarrow> string list \<Rightarrow>
     event list \<times> (string list \<times> bool) result" where
  "checkRecords c isRootDebug isVerbose [] prList = ([], Return (prList, True))"
| "checkRecords c isRootDebug isVerbose (dataLine # rest) prList =
     (case checkDataLine c isRootDebug isVerbose dataLine of
        (out, Panic) \<Rightarrow> (out, Panic)
      | (out, Return None) \<Rightarrow> (out, Return ([], False))
      | (out, Return (Some prInfo)) \<Rightarrow>
          (case checkRecords c isRootDebug isVerbose rest (prList @ [prInfo]) of
             (out', res) \<Rightarrow> (out @ out', res)))"

definition loadPrListFile ::
  "'w collaborators \<Rightarrow> bool \<Rightarrow> 'w \<Rightarrow> string \<Rightarrow> bool \<Rightarrow> event list \<times> (string list \<times> bool) result" where
  "loadPrListFile c isRootDebug w fileName isVerbose =
     (case osOpen c fileName w of
        None \<Rightarrow>
          ([LogPrintf (''Unable to read input file '' @ fileName @ ''\<newline>'') [Err (Some PathError)]],
           Return ([], False))
      | Some f \<Rightarrow>
          (case csv_Read (csv_NewReader f) of
             (Inl err1, r) \<Rightarrow>
               ([LogPrintf (''Unexpected error loading'' @ fileName @ ''\<newline>'') [Err None]],
                Return ([], False))
           | (Inr headerLine, r) \<Rightarrow>
               (let out1 = (if isVerbose then [Println ''Checking input file''] else []) in
                case validateHeader headerLine referenceCSVheader isVerbose of
                  (outH, Panic) \<Rightarrow> (out1 @ outH, Panic)
                | (outH, Return valid) \<Rightarrow>
                    if \<not> valid then
                      (out1 @ outH @ [Println '' Error: header is incorrect.''], Return ([], False))
                    else
                      (let out2 = out1 @ outH @
                             (if isVerbose then [Printf ''  - Header is correct\<newline>'' []] else []) in
                       case csv_ReadAll r [] of
                         Inl err \<Rightarrow>
                           (out2 @
                            [LogPrintf (''Unexpected error loading \"'' @ fileName @ ''\"\<newline>'')
                               [Err (Some err)]],
                            Return ([], False))
                       | Inr records \<Rightarrow>
                           if length records < 2 then
                             (out2 @ [Printf ''Error: No data available after the header\<newline>'' []],
                              Return ([], False))
                           else
                             (let out3 = out2 @
                                    (if isVerbose then
                                       [Println ''  - At least one Pull Request data available'']
                                     else []) in
                              case checkRecords c isRootDebug isVerbose records [] of
                                (outL, Return (prList, True)) \<Rightarrow>
                                  (out3 @ outL @
                                   (if isVerbose then
                                      [Printf ''Successfully loaded \"%s\" (%d Pull Request to analyze)\<newline>\<newline>''
                                         [Str fileName, Num (len prList)]]
                                    else []),
                                   Return (prList, True))
                              | (outL, res) \<Rightarrow> (out3 @ outL, res))))))"

section \<open>The batch\<close>

text \<open>The package-level variables \<^verbatim>\<open>performAction\<close> reads.\<close>

record globals =
  isRootDebug :: bool
  isVerbose :: bool
  globalIsAppend :: bool
  globalIsNoHeader :: bool
  outputFileName :: string

text \<open>The three counters of \<^verbatim>\<open>performAction\<close>.\<close>

record accounting =
  nbrPR_noComment :: go_int
  nbrPR_withComments :: go_int
  totalComments :: go_int

text \<open>
  Modelled from the spec: \<^verbatim>\<open>checkIfSufficientQuota\<close> is a function of this repository
  that is not in \<^verbatim>\<open>cmd/get-commenters.go\<close>. The spec (4.3) has it "compare projected
  API cost of processing \<^verbatim>\<open>workItemCount\<close> items against \<^verbatim>\<open>remaining\<close> and ... halt
  the batch (non-recoverable, process-terminating) if insufficient", the quota being
  insufficient when the remaining quota is below the projected cost (8). The value is
  \<open>True\<close> when the call returns and \<open>False\<close> when it ends the process.
\<close>

definition checkIfSufficientQuota :: "'w collaborators \<Rightarrow> go_int \<Rightarrow> 'w \<Rightarrow> bool" where
  "checkIfSufficientQuota c workItemCount w = (projectedCost c workItemCount \<le> quotaRemaining c w)"

text \<open>
  How a run of \<^verbatim>\<open>performAction\<close> ends: \<^verbatim>\<open>os.Exit\<close> with a status, the process ended
  inside \<^verbatim>\<open>checkIfSufficientQuota\<close>, a panic, or the return of the function, with the
  counters as they then stand.
\<close>

datatype outcome = OsExit go_int | QuotaHalt | Panicked | Returned accounting

text \<open>The loop \<^verbatim>\<open>for _, pr_line := range prList\<close>.\<close>

fun batchLoop ::
  "'w collaborators \<Rightarrow> globals \<Rightarrow> bool \<Rightarrow> string list \<Rightarrow> accounting \<Rightarrow> 'w \<Rightarrow>
     event list \<times> accounting \<times> 'w" where
  "batchLoop c g isAppend [] acct w = ([], acct, w)"
| "batchLoop c g isAppend (pr_line # rest) acct w =
     (case getCommenters c pr_line isAppend (globalIsNoHeader g) (outputFileName g) w of
        (nbrOfComments, w1) \<Rightarrow>
          (let acct1 = acct\<lparr>totalComments := totalComments acct + nbrOfComments\<rparr>;
               acct2 =
                 (if nbrOfComments = 0 then acct1\<lparr>nbrPR_noComment := nbrPR_noComment acct1 + 1\<rparr>
                  else acct1\<lparr>nbrPR_withComments := nbrPR_withComments acct1 + 1\<rparr>);
               (outBar, w2) =
                 (if \<not> isVerbose g then
                    (case barAdd c 1 w1 of
                       (None, w2) \<Rightarrow> ([BarAdd 1], w2)
                     | (Some err, w2) \<Rightarrow>
                         ([BarAdd 1,
                           LogPrintf ''Unexpected error updating progress bar (%v)\<newline>'' [Err (Some err)]],
                          w2))
                  else ([], w1));
               (out, acct', w') = batchLoop c g isAppend rest acct2 w2
           in (GetCommenters pr_line isAppend (globalIsNoHeader g) (outputFileName g) nbrOfComments
                 # outBar @ out,
               acct', w')))"

text \<open>
  The block \<^verbatim>\<open>isAppend := globalIsAppend; if !globalIsAppend { ... }\<close> of
  \<^verbatim>\<open>performAction\<close>: its events, the value of \<^verbatim>\<open>isAppend\<close> after it, and the world
  after it. The error of \<^verbatim>\<open>os.Remove\<close> is dropped, as in the source.
\<close>

definition prepareOutput :: "'w collaborators \<Rightarrow> globals \<Rightarrow> 'w \<Rightarrow> event list \<times> bool \<times> 'w" where
  "prepareOutput c g w =
     (if \<not> globalIsAppend g then
        (if fileExist c (outputFileName g) w then
           ([OsRemove (outputFileName g)], True, osRemove c (outputFileName g) w)
         else ([], True, w))
      else ([], globalIsAppend g, w))"

definition performAction ::
  "'w collaborators \<Rightarrow> globals \<Rightarrow> string \<Rightarrow> 'w \<Rightarrow> event list \<times> outcome \<times> 'w" where
  "performAction c g inputFile w =
     (let out0 = Printf ''Processing \"%s\"\<newline>'' [Str inputFile] #
                 (if isRootDebug g then [DebugPrintf ''Processing \"%s\"\<newline>'' [Str inputFile]]
                  else [])
      in
      case loadPrListFile c (isRootDebug g) w inputFile (isVerbose g) of
        (out1, Panic) \<Rightarrow> (out0 @ out1, Panicked, w)
      | (out1, Return (prList, result)) \<Rightarrow>
          if \<not> result then
            (out0 @ out1 @ [Printf ''Could not load \"%s\"\<newline>'' [Str inputFile]], OsExit 1, w)
          else
            (case prepareOutput c g w of
               (out2, isAppend, w2) \<Rightarrow>
                 (let out3 = [CheckIfSufficientQuota (len prList)] in
                  if \<not> checkIfSufficientQuota c (len prList) w2 then
                    (out0 @ out1 @ out2 @ out3, QuotaHalt, w2)
                  else
                    (let out4 = (if \<not> isVerbose g then [ProgressbarDefault (len prList)] else [])
                     in
                     case batchLoop c g isAppend prList
                            \<lparr>nbrPR_noComment = 0, nbrPR_withComments = 0, totalComments = 0\<rparr> w2 of
                       (out5, acct, w5) \<Rightarrow>
                         (let out6 =
                                [Printf ''Nbr of PR without comments: %d\<newline>''
                                   [Num (nbrPR_noComment acct)],
                                 Printf ''Nbr of PR with comments:    %d\<newline>''
                                   [Num (nbrPR_withComments acct)],
                                 Printf ''Total comments:             %d\<newline>''
                                   [Num (totalComments acct)]] @
                                (if isRootDebug g then
                                   [DebugPrintf ''Nbr of PR without comments: %d\<newline>''
                                      [Num (nbrPR_noComment acct)],
                                    DebugPrintf ''Nbr of PR with comments:    %d\<newline>''
                                      [Num (nbrPR_withComments acct)],
                                    DebugPrintf ''Total comments:             %d\<newline>''
                                      [Num (totalComments acct)]]
                                 else [])
                          in (out0 @ out1 @ out2 @ out3 @ out4 @ out5 @ out6, Returned acct, w5))))))"

section \<open>Notions the properties are stated with\<close>

text \<open>The three field checks of a data row, and the work item built from it.\<close>

definition rowPassesFieldChecks :: "'w collaborators \<Rightarrow> string list \<Rightarrow> bool" where
  "rowPassesFieldChecks c row =
     (isValidOrgFormat c (row ! 0) \<and> prj_regexp_MatchString (strings_ToLower c (row ! 1)) \<and>
      pr_regexp_MatchString (row ! 2))"

definition workItem :: "string list \<Rightarrow> string" where
  "workItem row = row ! 0 @ ''/'' @ row ! 1 @ ''/'' @ row ! 2"

text \<open>The diagnostic of a failing field: on standard output when verbose, in the debug log
  when the debug flag is set.\<close>

definition fieldDiagnostic :: "bool \<Rightarrow> bool \<Rightarrow> string \<Rightarrow> string \<Rightarrow> event list" where
  "fieldDiagnostic verbose debug fmt field =
     (if verbose then [Printf fmt [Str field]] else []) @
     (if debug then [DebugPrintf fmt [Str field]] else [])"

text \<open>Kinds of events: the prints, and the counts the fetch collaborator returned, in order.\<close>

fun isPrint :: "event \<Rightarrow> bool" where
  "isPrint (Printf fmt args) = True"
| "isPrint (Println s) = True"
| "isPrint (LogPrintf fmt args) = True"
| "isPrint (DebugPrintf fmt args) = True"
| "isPrint e = False"

fun isFetch :: "event \<Rightarrow> bool" where
  "isFetch (GetCommenters pr_line isAppend isNoHeader fileName n) = True"
| "isFetch e = False"

fun isQuotaCheck :: "event \<Rightarrow> bool" where
  "isQuotaCheck (CheckIfSufficientQuota n) = True"
| "isQuotaCheck e = False"

fun appendArgument :: "event \<Rightarrow> bool option" where
  "appendArgument (GetCommenters pr_line isAppend isNoHeader fileName n) = Some isAppend"
| "appendArgument e = None"

fun returnedCounts :: "event list \<Rightarrow> go_int list" where
  "returnedCounts [] = []"
| "returnedCounts (GetCommenters pr_line isAppend isNoHeader fileName n # es) = n # returnedCounts es"
| "returnedCounts (e # es) = returnedCounts es"

text \<open>Events that are neither the removal of a file, nor the quota check, nor a fetch.\<close>

fun isReport :: "event \<Rightarrow> bool" where
  "isReport (OsRemove fileName) = False"
| "isReport (CheckIfSufficientQuota n) = False"
| "isReport (GetCommenters pr_line isAppend isNoHeader fileName n) = False"
| "isReport e = True"

text \<open>The accounting the spec gives for a list of returned counts.\<close>

definition tally :: "go_int list \<Rightarrow> accounting" where
  "tally counts =
     \<lparr>nbrPR_noComment = of_nat (length (filter (\<lambda>n. n = 0) counts)),
      nbrPR_withComments = of_nat (length (filter (\<lambda>n. n \<noteq> 0) counts)),
      totalComments = sum_list counts\<rparr>"

section \<open>Concrete collaborators, for running the definitions\<close>

text \<open>
  \<^verbatim>\<open>strings.ToLower\<close> on a string of ASCII bytes: the upper-case letters are replaced by
  the lower-case ones and every other byte is kept.
\<close>

definition asciiToLower :: "string \<Rightarrow> string" where
  "asciiToLower s =
     map (\<lambda>ch. case map_of (zip ''ABCDEFGHIJKLMNOPQRSTUVWXYZ'' ''abcdefghijklmnopqrstuvwxyz'') ch of
                  None \<Rightarrow> ch | Some l \<Rightarrow> l) s"

text \<open>
  A world that is the list of counts the fetch collaborator has yet to return. Every file
  name opens the given file, an organisation name is valid when it is not empty, the output
  file exists, the quota left is \<open>quota\<close> and each work item costs one unit.
\<close>

definition scripted :: "csv_record list \<Rightarrow> nat \<Rightarrow> (go_int list) collaborators" where
  "scripted file quota =
     \<lparr>osOpen = (\<lambda>fileName w. Some file),
      isValidOrgFormat = (\<lambda>org. org \<noteq> []),
      strings_ToLower = asciiToLower,
      fileExist = (\<lambda>fileName w. True),
      osRemove = (\<lambda>fileName w. w),
      quotaRemaining = (\<lambda>w. quota),
      projectedCost = unat,
      getCommenters = (\<lambda>pr_line isAppend isNoHeader fileName w.
                         case w of [] \<Rightarrow> (0, []) | n # rest \<Rightarrow> (n, rest)),
      barAdd = (\<lambda>n w. (None, w))\<rparr>"

definition dataRow :: "string \<Rightarrow> string \<Rightarrow> string \<Rightarrow> string list" where
  "dataRow org prj prNbr =
     [org, prj, prNbr, ''https://example.org/pull'', ''MERGED'', ''2023-05-01T10:00:00Z'',
      ''2023-05-02T10:00:00Z'', ''alice'', ''2023-05'', ''A title'']"

text \<open>A file with three valid data rows, and the flags of a quiet run that is not in append
  mode.\<close>

definition threeRows :: "csv_record list" where
  "threeRows =
     [Record referenceCSVheader, Record (dataRow ''acme'' ''widget-api'' ''42''),
      Record (dataRow ''Acme'' ''Widget.API'' ''7''), Record (dataRow ''acme'' ''x'' ''8'')]"

definition quiet :: globals where
  "quiet = \<lparr>isRootDebug = False, isVerbose = False, globalIsAppend = False,
            globalIsNoHeader = False, outputFileName = ''out.csv''\<rparr>"

section \<open>The header check: properties\<close>

lemma validateHeader_range_result:
  "i + length hs \<le> length ref \<Longrightarrow>
   snd (validateHeader_range i hs ref verbose) = Return (hs = take (length hs) (drop i ref))"
proof (induction hs arbitrary: i)
  case Nil
  then show ?case by simp
next
  case (Cons h hs)
  from Cons.prems have i: "i < length ref" and step: "Suc i + length hs \<le> length ref"
    by simp_all
  from i have d: "drop i ref = ref ! i # drop (Suc i) ref"
    by (simp add: Cons_nth_drop_Suc)
  show ?case
    using Cons.IH [OF step] i by (simp add: index_def d)
qed

lemma validateHeader_result:
  "snd (validateHeader header ref verbose) = Return (header = ref)"
proof (cases "length header = length ref")
  case True
  then show ?thesis
    using validateHeader_range_result [of 0 header ref verbose]
    by (simp add: validateHeader_def)
next
  case False
  then show ?thesis by (auto simp: validateHeader_def)
qed

text \<open>
  C2. \<^verbatim>\<open>validateHeader(H, S)\<close> returns true if and only if \<open>H\<close> has as many fields as
  \<open>S\<close> and every field of \<open>H\<close> equals the field of \<open>S\<close> at the same position; the
  comparison is equality of the strings, byte for byte, so it is case-sensitive.
\<close>

theorem validateHeader_true_iff:
  "snd (validateHeader header schema verbose) = Return True \<longleftrightarrow>
     length header = length schema \<and> (\<forall>i<length header. header ! i = schema ! i)"
  by (simp add: validateHeader_result list_eq_iff_nth_eq)

theorem validateHeader_true_iff_witness:
  "snd (validateHeader referenceCSVheader referenceCSVheader True) = Return True
   \<and> snd (validateHeader [''org'', ''Repository''] [''org'', ''repository''] True) \<noteq> Return True
   \<and> snd (validateHeader [''org''] [''org'', ''repository''] True) \<noteq> Return True"
  using validateHeader_true_iff [of referenceCSVheader referenceCSVheader True]
    validateHeader_true_iff [of "[''org'', ''Repository'']" "[''org'', ''repository'']" True]
    validateHeader_true_iff [of "[''org'']" "[''org'', ''repository'']" True]
  by (simp add: All_less_Suc)

section \<open>Loading: properties\<close>

lemma csv_Read_NewReader:
  "csv_Read (csv_NewReader f) =
     (case f of
        [] \<Rightarrow> (Inl EOF, csv_NewReader f)
      | Malformed # rest \<Rightarrow> (Inl ParseError, \<lparr>FieldsPerRecord = 0, input = rest\<rparr>)
      | Record line # rest \<Rightarrow> (Inr line, \<lparr>FieldsPerRecord = length line, input = rest\<rparr>))"
  by (simp add: csv_Read_def csv_NewReader_def split: list.splits csv_record.splits)

lemma csv_ReadAll_complete:
  "\<forall>row\<in>set rows. length row = n \<Longrightarrow> 0 < n \<Longrightarrow>
   csv_ReadAll \<lparr>FieldsPerRecord = n, input = map Record rows\<rparr> acc = Inr (acc @ rows)"
proof (induction rows arbitrary: acc)
  case Nil
  then show ?case by (subst csv_ReadAll.simps) (simp add: csv_Read_def)
next
  case (Cons row rows)
  then show ?case by (subst csv_ReadAll.simps) (simp add: csv_Read_def)
qed

lemma csv_ReadAll_sound:
  "csv_ReadAll r acc = Inr records \<Longrightarrow> 0 < FieldsPerRecord r \<Longrightarrow>
   \<exists>rows. records = acc @ rows \<and> input r = map Record rows \<and>
          (\<forall>row\<in>set rows. length row = FieldsPerRecord r)"
proof (induction r acc rule: csv_ReadAll.induct)
  case (1 r acc)
  show ?case
  proof (cases "input r")
    case Nil
    with "1.prems" show ?thesis by (simp add: csv_ReadAll.simps [of r] csv_Read_def)
  next
    case (Cons x rest)
    show ?thesis
    proof (cases x)
      case Malformed
      with Cons "1.prems" show ?thesis by (simp add: csv_ReadAll.simps [of r] csv_Read_def)
    next
      case (Record line)
      show ?thesis
      proof (cases "length line = FieldsPerRecord r")
        case False
        with Cons Record "1.prems" show ?thesis by (simp add: csv_ReadAll.simps [of r] csv_Read_def)
      next
        case True
        have rd: "csv_Read r = (Inr line, r\<lparr>input := rest\<rparr>)"
          using Cons Record True "1.prems"(2) by (simp add: csv_Read_def)
        from "1.prems"(1) rd have next_all: "csv_ReadAll (r\<lparr>input := rest\<rparr>) (acc @ [line]) = Inr records"
          by (simp add: csv_ReadAll.simps [of r])
        from "1.IH" [OF rd [symmetric] refl next_all] "1.prems"(2)
        obtain rows where "records = (acc @ [line]) @ rows" "rest = map Record rows"
          "\<forall>row\<in>set rows. length row = FieldsPerRecord r"
          by auto
        with Cons Record True show ?thesis
          by (intro exI [of _ "line # rows"]) simp
      qed
    qed
  qed
qed

lemma checkDataLine_result:
  "3 \<le> length row \<Longrightarrow>
   snd (checkDataLine c d v row) =
     Return (if rowPassesFieldChecks c row then Some (workItem row) else None)"
  by (auto simp: checkDataLine_def index_def rowPassesFieldChecks_def workItem_def)

lemma checkRecords_result:
  "\<forall>row\<in>set rows. 3 \<le> length row \<Longrightarrow>
   snd (checkRecords c d v rows acc) =
     (if list_all (rowPassesFieldChecks c) rows then Return (acc @ map workItem rows, True)
      else Return ([], False))"
proof (induction rows arbitrary: acc)
  case Nil
  then show ?case by simp
next
  case (Cons row rows)
  from Cons.prems have len: "3 \<le> length row" and rest: "\<forall>row\<in>set rows. 3 \<le> length row"
    by simp_all
  obtain out res where cd: "checkDataLine c d v row = (out, res)"
    by (cases "checkDataLine c d v row")
  with checkDataLine_result [OF len, of c d v]
  have res: "res = Return (if rowPassesFieldChecks c row then Some (workItem row) else None)"
    by simp
  show ?case
    using Cons.IH [OF rest, of "acc @ [workItem row]"] cd res by (auto split: prod.splits)
qed


lemma length_referenceCSVheader: "length referenceCSVheader = 10"
  by (simp add: referenceCSVheader_def)

lemma validateHeader_cases:
  obtains outH where "validateHeader h ref v = (outH, Return (h = ref))"
  using validateHeader_result [of h ref v] by (cases "validateHeader h ref v") simp

lemma checkRecords_cases:
  assumes "\<forall>row\<in>set rows. 3 \<le> length row"
  obtains outL where
    "checkRecords c d v rows acc =
       (outL, if list_all (rowPassesFieldChecks c) rows then Return (acc @ map workItem rows, True)
              else Return ([], False))"
  using checkRecords_result [OF assms, of c d v acc] by (cases "checkRecords c d v rows acc") simp

lemma loadPrListFile_success:
  assumes opened: "osOpen c fileName w = Some (Record referenceCSVheader # map Record rows)"
    and fields: "\<forall>row\<in>set rows. length row = length referenceCSVheader"
    and valid: "list_all (rowPassesFieldChecks c) rows"
    and two: "2 \<le> length rows"
  shows "snd (loadPrListFile c d w fileName v) = Return (map workItem rows, True)"
proof -
  obtain outH where hdr: "validateHeader referenceCSVheader referenceCSVheader v = (outH, Return True)"
    using validateHeader_cases [of referenceCSVheader referenceCSVheader v] by auto
  have all: "csv_ReadAll \<lparr>FieldsPerRecord = length referenceCSVheader, input = map Record rows\<rparr> [] = Inr rows"
    using csv_ReadAll_complete [OF fields, of "[]"] by (simp add: length_referenceCSVheader)
  from fields have three: "\<forall>row\<in>set rows. 3 \<le> length row"
    by (simp add: length_referenceCSVheader)
  obtain outL where loop: "checkRecords c d v rows [] = (outL, Return (map workItem rows, True))"
    using checkRecords_cases [OF three, of c d v "[]"] valid by auto
  show ?thesis
    using opened hdr all loop two
    by (simp add: loadPrListFile_def csv_Read_NewReader)
qed

lemma loadPrListFile_cases:
  "snd (loadPrListFile c d w fileName v) = Return ([], False) \<or>
   (\<exists>rows. osOpen c fileName w = Some (Record referenceCSVheader # map Record rows) \<and>
      (\<forall>row\<in>set rows. length row = length referenceCSVheader) \<and>
      list_all (rowPassesFieldChecks c) rows \<and> 2 \<le> length rows \<and>
      snd (loadPrListFile c d w fileName v) = Return (map workItem rows, True))"
proof (cases "osOpen c fileName w")
  case None
  then show ?thesis by (simp add: loadPrListFile_def)
next
  case (Some f)
  show ?thesis
  proof (cases f)
    case Nil
    with Some show ?thesis by (simp add: loadPrListFile_def csv_Read_NewReader)
  next
    case (Cons x rest)
    show ?thesis
    proof (cases x)
      case Malformed
      with Some Cons show ?thesis by (simp add: loadPrListFile_def csv_Read_NewReader)
    next
      case (Record h)
      obtain outH where hdr: "validateHeader h referenceCSVheader v = (outH, Return (h = referenceCSVheader))"
        by (rule validateHeader_cases)
      show ?thesis
      proof (cases "h = referenceCSVheader")
        case False
        with Some Cons Record hdr show ?thesis
          by (simp add: loadPrListFile_def csv_Read_NewReader)
      next
        case True
        let ?r = "\<lparr>FieldsPerRecord = length referenceCSVheader, input = rest\<rparr>"
        show ?thesis
        proof (cases "csv_ReadAll ?r []")
          case (Inl err)
          with Some Cons Record hdr True show ?thesis
            by (simp add: loadPrListFile_def csv_Read_NewReader)
        next
          case (Inr records)
          from csv_ReadAll_sound [OF Inr]
          have rest: "rest = map Record records"
            and fields: "\<forall>row\<in>set records. length row = length referenceCSVheader"
            by (auto simp: length_referenceCSVheader)
          from fields have three: "\<forall>row\<in>set records. 3 \<le> length row"
            by (simp add: length_referenceCSVheader)
          obtain outL where loop:
            "checkRecords c d v records [] =
               (outL, if list_all (rowPassesFieldChecks c) records
                      then Return ([] @ map workItem records, True) else Return ([], False))"
            by (rule checkRecords_cases [OF three])
          show ?thesis
          proof (cases "2 \<le> length records \<and> list_all (rowPassesFieldChecks c) records")
            case False
            with Some Cons Record hdr True Inr loop show ?thesis
              by (auto simp: loadPrListFile_def csv_Read_NewReader)
          next
            case ok: True
            with Some Cons Record hdr True Inr loop
            have "snd (loadPrListFile c d w fileName v) = Return (map workItem records, True)"
              by (simp add: loadPrListFile_def csv_Read_NewReader)
            with Some Cons Record True rest fields ok show ?thesis
              by auto
          qed
        qed
      qed
    qed
  qed
qed

lemma loadPrListFile_never_panics: "snd (loadPrListFile c d w fileName v) \<noteq> Panic"
  using loadPrListFile_cases [of c d w fileName v] by auto

lemma loadPrListFile_rejects_row:
  assumes opened: "osOpen c fileName w = Some (first # rest)"
    and row: "Record dataLine \<in> set rest"
    and bad: "\<not> rowPassesFieldChecks c dataLine"
  shows "snd (loadPrListFile c d w fileName v) = Return ([], False)"
proof -
  have "\<not> (\<exists>rows. osOpen c fileName w = Some (Record referenceCSVheader # map Record rows) \<and>
              list_all (rowPassesFieldChecks c) rows)"
  proof
    assume "\<exists>rows. osOpen c fileName w = Some (Record referenceCSVheader # map Record rows) \<and>
              list_all (rowPassesFieldChecks c) rows"
    then obtain rows where f: "osOpen c fileName w = Some (Record referenceCSVheader # map Record rows)"
      and ok: "list_all (rowPassesFieldChecks c) rows"
      by blast
    from f opened have "rest = map Record rows" by simp
    with row have "dataLine \<in> set rows" by auto
    with ok bad show False by (simp add: list_all_iff)
  qed
  with loadPrListFile_cases [of c d w fileName v] show ?thesis by blast
qed

text \<open>
  C3. If a data row of the input has a number field (the third field) that does not fully
  match \<^verbatim>\<open>^\d+$\<close>, as \<^verbatim>\<open>12a\<close>, \<^verbatim>\<open>-5\<close> and the empty string do not, then
  \<^verbatim>\<open>loadPrListFile\<close> fails: it returns \<^verbatim>\<open>nil, false\<close>. The data rows are what follows
  the first line of the file.
\<close>

theorem load_fails_on_bad_number:
  assumes "osOpen c fileName w = Some (first # rest)"
    and "Record dataLine \<in> set rest"
    and "index dataLine 2 = Return prNbr"
    and "\<not> pr_regexp_MatchString prNbr"
  shows "snd (loadPrListFile c d w fileName v) = Return ([], False)"
proof -
  from assms(3,4) have "\<not> rowPassesFieldChecks c dataLine"
    by (auto simp: index_def rowPassesFieldChecks_def split: if_splits)
  with assms(1,2) show ?thesis by (rule loadPrListFile_rejects_row)
qed

theorem load_fails_on_bad_number_witness:
  "snd (loadPrListFile
          (scripted [Record referenceCSVheader, Record (dataRow ''acme'' ''widget-api'' ''42''),
                     Record (dataRow ''acme'' ''widget-api'' ''12a'')] 10)
          False [] ''prs.csv'' False) = Return ([], False)
   \<and> snd (loadPrListFile
          (scripted [Record referenceCSVheader, Record (dataRow ''acme'' ''widget-api'' ''-5''),
                     Record (dataRow ''acme'' ''widget-api'' ''42'')] 10)
          False [] ''prs.csv'' False) = Return ([], False)
   \<and> snd (loadPrListFile
          (scripted [Record referenceCSVheader, Record (dataRow ''acme'' ''widget-api'' ''42''),
                     Record (dataRow ''acme'' ''widget-api'' [])] 10)
          False [] ''prs.csv'' False) = Return ([], False)"
  using load_fails_on_bad_number
      [of "scripted [Record referenceCSVheader, Record (dataRow ''acme'' ''widget-api'' ''42''),
                     Record (dataRow ''acme'' ''widget-api'' ''12a'')] 10"
          "''prs.csv''" "[]" "Record referenceCSVheader" _ "dataRow ''acme'' ''widget-api'' ''12a''"
          "''12a''" False False]
    load_fails_on_bad_number
      [of "scripted [Record referenceCSVheader, Record (dataRow ''acme'' ''widget-api'' ''-5''),
                     Record (dataRow ''acme'' ''widget-api'' ''42'')] 10"
          "''prs.csv''" "[]" "Record referenceCSVheader" _ "dataRow ''acme'' ''widget-api'' ''-5''"
          "''-5''" False False]
    load_fails_on_bad_number
      [of "scripted [Record referenceCSVheader, Record (dataRow ''acme'' ''widget-api'' ''42''),
                     Record (dataRow ''acme'' ''widget-api'' [])] 10"
          "''prs.csv''" "[]" "Record referenceCSVheader" _ "dataRow ''acme'' ''widget-api'' []"
          "[]" False False]
  by (simp add: scripted_def dataRow_def index_def pr_regexp_MatchString_def digit_chars_def)

text \<open>
  C4. If a data row of the input has a project field (the second field) whose lower-cased
  form does not fully match \<^verbatim>\<open>^[\w\-.]+$\<close>, then \<^verbatim>\<open>loadPrListFile\<close> fails: it returns
  \<^verbatim>\<open>nil, false\<close>.
\<close>

theorem load_fails_on_bad_project:
  assumes "osOpen c fileName w = Some (first # rest)"
    and "Record dataLine \<in> set rest"
    and "index dataLine 1 = Return prj"
    and "\<not> prj_regexp_MatchString (strings_ToLower c prj)"
  shows "snd (loadPrListFile c d w fileName v) = Return ([], False)"
proof -
  from assms(3,4) have "\<not> rowPassesFieldChecks c dataLine"
    by (auto simp: index_def rowPassesFieldChecks_def split: if_splits)
  with assms(1,2) show ?thesis by (rule loadPrListFile_rejects_row)
qed

theorem load_fails_on_bad_project_witness:
  "snd (loadPrListFile
          (scripted [Record referenceCSVheader, Record (dataRow ''acme'' ''widget-api'' ''42''),
                     Record (dataRow ''acme'' ''Widget API'' ''7'')] 10)
          False [] ''prs.csv'' False) = Return ([], False)"
  using load_fails_on_bad_project
      [of "scripted [Record referenceCSVheader, Record (dataRow ''acme'' ''widget-api'' ''42''),
                     Record (dataRow ''acme'' ''Widget API'' ''7'')] 10"
          "''prs.csv''" "[]" "Record referenceCSVheader" _ "dataRow ''acme'' ''Widget API'' ''7''"
          "''Widget API''" False False]
  by (simp add: scripted_def dataRow_def index_def prj_regexp_MatchString_def word_chars_def
      asciiToLower_def)

text \<open>
  C5. Row validation is all-or-nothing: when a data row of the input fails one of the three
  field checks, \<^verbatim>\<open>loadPrListFile\<close> returns \<^verbatim>\<open>nil, false\<close> for the whole file, whatever
  the other rows are, so no partial work list comes out; and the validation of that row
  (the body of the loop) returns at its first failing field, with the diagnostic of that
  field only.
\<close>

theorem row_validation_all_or_nothing:
  assumes "osOpen c fileName w = Some (first # rest)"
    and "Record dataLine \<in> set rest"
    and "index dataLine 0 = Return org"
    and "index dataLine 1 = Return prj"
    and "index dataLine 2 = Return prNbr"
    and "\<not> (isValidOrgFormat c org \<and> prj_regexp_MatchString (strings_ToLower c prj) \<and>
            pr_regexp_MatchString prNbr)"
  shows "snd (loadPrListFile c d w fileName v) = Return ([], False) \<and>
         checkDataLine c d v dataLine =
           (if \<not> isValidOrgFormat c org then
              fieldDiagnostic v d '' Error: ORG field \"%s\" doesn't seem to be a valid GitHub org.\<newline>'' org
            else if \<not> prj_regexp_MatchString (strings_ToLower c prj) then
              fieldDiagnostic v d '' Error: PRJ field \"%s\" is not of the expected format'' prj
            else
              fieldDiagnostic v d '' Error: PR field \"%s\" is not a (positive) number'' prNbr,
            Return None)"
proof -
  from assms(3-6) have "\<not> rowPassesFieldChecks c dataLine"
    by (auto simp: index_def rowPassesFieldChecks_def split: if_splits)
  with assms(1,2) have "snd (loadPrListFile c d w fileName v) = Return ([], False)"
    by (rule loadPrListFile_rejects_row)
  moreover from assms(3-6) have "checkDataLine c d v dataLine =
           (if \<not> isValidOrgFormat c org then
              fieldDiagnostic v d '' Error: ORG field \"%s\" doesn't seem to be a valid GitHub org.\<newline>'' org
            else if \<not> prj_regexp_MatchString (strings_ToLower c prj) then
              fieldDiagnostic v d '' Error: PRJ field \"%s\" is not of the expected format'' prj
            else
              fieldDiagnostic v d '' Error: PR field \"%s\" is not a (positive) number'' prNbr,
            Return None)"
    by (simp add: checkDataLine_def fieldDiagnostic_def)
  ultimately show ?thesis by simp
qed

theorem row_validation_all_or_nothing_witness:
  "snd (loadPrListFile
          (scripted [Record referenceCSVheader, Record (dataRow ''acme'' ''widget-api'' ''42''),
                     Record (dataRow [] ''widget-api'' ''4a2''),
                     Record (dataRow ''acme'' ''widget-api'' ''43'')] 10)
          False [] ''prs.csv'' True) = Return ([], False)
   \<and> checkDataLine
        (scripted [Record referenceCSVheader, Record (dataRow ''acme'' ''widget-api'' ''42''),
                   Record (dataRow [] ''widget-api'' ''4a2''),
                   Record (dataRow ''acme'' ''widget-api'' ''43'')] 10)
        False True (dataRow [] ''widget-api'' ''4a2'') =
      ([Printf '' Error: ORG field \"%s\" doesn't seem to be a valid GitHub org.\<newline>'' [Str []]],
       Return None)"
  using row_validation_all_or_nothing
      [of "scripted [Record referenceCSVheader, Record (dataRow ''acme'' ''widget-api'' ''42''),
                     Record (dataRow [] ''widget-api'' ''4a2''),
                     Record (dataRow ''acme'' ''widget-api'' ''43'')] 10"
          "''prs.csv''" "[]" "Record referenceCSVheader" _ "dataRow [] ''widget-api'' ''4a2''"
          "[]" "''widget-api''" "''4a2''" False True]
  by (simp add: scripted_def dataRow_def index_def fieldDiagnostic_def)

lemma validateHeader_reference:
  "validateHeader referenceCSVheader referenceCSVheader v = ([], Return True)"
  by (simp add: validateHeader_def referenceCSVheader_def index_def)

text \<open>
  C6. A file with a valid header and no data row after it is rejected: \<^verbatim>\<open>loadPrListFile\<close>
  prints \<^verbatim>\<open>Error: No data available after the header\<close>, a message of its own, and
  returns \<^verbatim>\<open>nil, false\<close>; it is not an empty batch.
\<close>

theorem header_only_file_rejected:
  assumes "osOpen c fileName w = Some [Record referenceCSVheader]"
  shows "loadPrListFile c d w fileName v =
           ((if v then [Println ''Checking input file'', Printf ''  - Header is correct\<newline>'' []]
             else []) @
            [Printf ''Error: No data available after the header\<newline>'' []],
            Return ([], False))"
proof -
  have "csv_ReadAll \<lparr>FieldsPerRecord = length referenceCSVheader, input = map Record []\<rparr> [] = Inr ([] @ [])"
    by (rule csv_ReadAll_complete) (simp_all add: length_referenceCSVheader)
  with assms show ?thesis
    by (simp add: loadPrListFile_def csv_Read_NewReader validateHeader_reference)
qed

theorem header_only_file_rejected_witness:
  "loadPrListFile (scripted [Record referenceCSVheader] 10) False [] ''prs.csv'' True =
     ([Println ''Checking input file'', Printf ''  - Header is correct\<newline>'' [],
       Printf ''Error: No data available after the header\<newline>'' []],
      Return ([], False))"
  using header_only_file_rejected [of "scripted [Record referenceCSVheader] 10" "''prs.csv''" "[]" False True]
  by (simp add: scripted_def)

text \<open>The message of the empty-data error is printed by no other path of the load: when it
  is printed, the header was valid and fewer than two rows followed it.\<close>

lemma validateHeader_range_no_plain_print:
  "Printf fmt [] \<notin> set (fst (validateHeader_range i hs ref v))"
  by (induction hs arbitrary: i) (simp_all split: result.splits)

lemma validateHeader_no_plain_print: "Printf fmt [] \<notin> set (fst (validateHeader h ref v))"
  by (simp add: validateHeader_def validateHeader_range_no_plain_print)

lemma checkDataLine_no_plain_print: "Printf fmt [] \<notin> set (fst (checkDataLine c d v row))"
  by (simp add: checkDataLine_def split: result.splits)

lemma checkRecords_no_plain_print: "Printf fmt [] \<notin> set (fst (checkRecords c d v rows acc))"
proof (induction rows arbitrary: acc)
  case Nil
  then show ?case by simp
next
  case (Cons row rows)
  obtain out res where one: "checkDataLine c d v row = (out, res)"
    by (cases "checkDataLine c d v row")
  with checkDataLine_no_plain_print [of fmt c d v row] have p: "Printf fmt [] \<notin> set out" by simp
  show ?case
  proof (cases res)
    case Panic
    with one p show ?thesis by simp
  next
    case (Return accepted)
    show ?thesis
    proof (cases accepted)
      case None
      with one p Return show ?thesis by simp
    next
      case (Some prInfo)
      obtain out' res' where more: "checkRecords c d v rows (acc @ [prInfo]) = (out', res')"
        by (cases "checkRecords c d v rows (acc @ [prInfo])")
      with Cons.IH [of "acc @ [prInfo]"] have "Printf fmt [] \<notin> set out'" by simp
      with one p Return Some more show ?thesis by simp
    qed
  qed
qed

lemma no_data_message_origin:
  assumes msg: "Printf ''Error: No data available after the header\<newline>'' [] \<in>
                  set (fst (loadPrListFile c d w fileName v))"
  shows "\<exists>rows. osOpen c fileName w = Some (Record referenceCSVheader # map Record rows) \<and>
           length rows < 2"
proof (cases "osOpen c fileName w")
  case None
  with msg show ?thesis by (simp add: loadPrListFile_def)
next
  case (Some f)
  show ?thesis
  proof (cases f)
    case Nil
    with Some msg show ?thesis by (simp add: loadPrListFile_def csv_Read_NewReader)
  next
    case (Cons x rest)
    show ?thesis
    proof (cases x)
      case Malformed
      with Some Cons msg show ?thesis by (simp add: loadPrListFile_def csv_Read_NewReader)
    next
      case (Record h)
      obtain outH where hdr: "validateHeader h referenceCSVheader v = (outH, Return (h = referenceCSVheader))"
        by (rule validateHeader_cases)
      with validateHeader_no_plain_print [of "''Error: No data available after the header\<newline>''" h referenceCSVheader v]
      have nH: "Printf ''Error: No data available after the header\<newline>'' [] \<notin> set outH"
        by simp
      show ?thesis
      proof (cases "h = referenceCSVheader")
        case False
        with Some Cons Record hdr nH msg show ?thesis
          by (cases v) (simp_all add: loadPrListFile_def csv_Read_NewReader)
      next
        case True
        let ?r = "\<lparr>FieldsPerRecord = length referenceCSVheader, input = rest\<rparr>"
        show ?thesis
        proof (cases "csv_ReadAll ?r []")
          case (Inl err)
          with Some Cons Record hdr True nH msg show ?thesis
            by (cases v) (simp_all add: loadPrListFile_def csv_Read_NewReader)
        next
          case (Inr records)
          from csv_ReadAll_sound [OF Inr]
          have rest: "rest = map Record records"
            by (auto simp: length_referenceCSVheader)
          show ?thesis
          proof (cases "length records < 2")
            case short: True
            with Some Cons Record True rest show ?thesis by auto
          next
            case long: False
            obtain outL resL where loop: "checkRecords c d v records [] = (outL, resL)"
              by (cases "checkRecords c d v records []")
            with checkRecords_no_plain_print [of "''Error: No data available after the header\<newline>''" c d v records "[]"]
            have nL: "Printf ''Error: No data available after the header\<newline>'' [] \<notin> set outL"
              by simp
            have "Printf ''Error: No data available after the header\<newline>'' [] \<notin>
                    set (fst (loadPrListFile c d w fileName v))"
            proof (cases resL)
              case Panic
              with Some Cons Record hdr True Inr long loop nH nL show ?thesis
                by (cases v) (simp_all add: loadPrListFile_def csv_Read_NewReader)
            next
              case ret: (Return loaded)
              obtain prList ok where loaded: "loaded = (prList, ok)"
                by (cases loaded)
              show ?thesis
                using Some Cons Record hdr True Inr long loop nH nL ret loaded
                by (cases ok; cases v) (simp_all add: loadPrListFile_def csv_Read_NewReader)
            qed
            with msg show ?thesis by simp
          qed
        qed
      qed
    qed
  qed
qed

lemma loadPrListFile_one_row:
  assumes "osOpen c fileName w = Some [Record referenceCSVheader, Record row]"
    and "length row = length referenceCSVheader"
  shows "loadPrListFile c d w fileName v =
           ((if v then [Println ''Checking input file'', Printf ''  - Header is correct\<newline>'' []]
             else []) @
            [Printf ''Error: No data available after the header\<newline>'' []],
            Return ([], False))"
proof -
  have "csv_ReadAll \<lparr>FieldsPerRecord = length referenceCSVheader, input = map Record [row]\<rparr> [] =
          Inr ([] @ [row])"
    using assms(2) by (intro csv_ReadAll_complete) (simp_all add: length_referenceCSVheader)
  with assms(1) show ?thesis
    by (simp add: loadPrListFile_def csv_Read_NewReader validateHeader_reference)
qed

text \<open>
  C1, at a file with the valid header and exactly one data row, \<^verbatim>\<open>acme,widget-api,42,...\<close>,
  which passes the three field checks: \<^verbatim>\<open>loadPrListFile\<close> prints
  \<^verbatim>\<open>Error: No data available after the header\<close> and returns \<^verbatim>\<open>nil, false\<close>, because
  \<^verbatim>\<open>records\<close> holds the rows after the header and the test is \<^verbatim>\<open>len(records) < 2\<close>.
  With two or more valid rows the load succeeds (\<open>loadPrListFile_success\<close>).
\<close>

theorem single_data_row_is_rejected:
  "rowPassesFieldChecks
     (scripted [Record referenceCSVheader, Record (dataRow ''acme'' ''widget-api'' ''42'')] 10)
     (dataRow ''acme'' ''widget-api'' ''42'') \<and>
   loadPrListFile
     (scripted [Record referenceCSVheader, Record (dataRow ''acme'' ''widget-api'' ''42'')] 10)
     False [] ''prs.csv'' False =
   ([Printf ''Error: No data available after the header\<newline>'' []], Return ([], False))"
proof -
  have "rowPassesFieldChecks
     (scripted [Record referenceCSVheader, Record (dataRow ''acme'' ''widget-api'' ''42'')] 10)
     (dataRow ''acme'' ''widget-api'' ''42'')"
    by (simp add: rowPassesFieldChecks_def scripted_def dataRow_def asciiToLower_def
        prj_regexp_MatchString_def pr_regexp_MatchString_def word_chars_def digit_chars_def)
  moreover have "loadPrListFile
     (scripted [Record referenceCSVheader, Record (dataRow ''acme'' ''widget-api'' ''42'')] 10)
     False [] ''prs.csv'' False =
   ([Printf ''Error: No data available after the header\<newline>'' []], Return ([], False))"
    using loadPrListFile_one_row
      [of "scripted [Record referenceCSVheader, Record (dataRow ''acme'' ''widget-api'' ''42'')] 10"
          "''prs.csv''" "[]" "dataRow ''acme'' ''widget-api'' ''42''" False False]
    by (simp add: scripted_def dataRow_def length_referenceCSVheader)
  ultimately show ?thesis by simp
qed

section \<open>The batch: properties\<close>

lemma returnedCounts_append: "returnedCounts (xs @ ys) = returnedCounts xs @ returnedCounts ys"
  by (induction xs rule: returnedCounts.induct) simp_all

lemma validateHeader_range_prints: "list_all isPrint (fst (validateHeader_range i hs ref v))"
  by (induction hs arbitrary: i) (simp_all split: result.splits)

lemma validateHeader_prints: "list_all isPrint (fst (validateHeader h ref v))"
  by (simp add: validateHeader_def validateHeader_range_prints)

lemma checkDataLine_prints: "list_all isPrint (fst (checkDataLine c d v row))"
  by (simp add: checkDataLine_def split: result.splits)

lemma checkRecords_prints: "list_all isPrint (fst (checkRecords c d v rows acc))"
proof (induction rows arbitrary: acc)
  case Nil
  then show ?case by simp
next
  case (Cons row rows)
  obtain out res where one: "checkDataLine c d v row = (out, res)"
    by (cases "checkDataLine c d v row")
  with checkDataLine_prints [of c d v row] have p: "list_all isPrint out" by simp
  show ?case
  proof (cases res)
    case Panic
    with one p show ?thesis by simp
  next
    case (Return accepted)
    show ?thesis
    proof (cases accepted)
      case None
      with one p Return show ?thesis by simp
    next
      case (Some prInfo)
      obtain out' res' where more: "checkRecords c d v rows (acc @ [prInfo]) = (out', res')"
        by (cases "checkRecords c d v rows (acc @ [prInfo])")
      with Cons.IH [of "acc @ [prInfo]"] have "list_all isPrint out'" by simp
      with one p Return Some more show ?thesis by simp
    qed
  qed
qed

lemma loadPrListFile_prints: "list_all isPrint (fst (loadPrListFile c d w fileName v))"
proof (cases "osOpen c fileName w")
  case None
  then show ?thesis by (simp add: loadPrListFile_def)
next
  case (Some f)
  show ?thesis
  proof (cases "csv_Read (csv_NewReader f)")
    case (Pair got r)
    show ?thesis
    proof (cases got)
      case (Inl err1)
      with Some Pair show ?thesis by (simp add: loadPrListFile_def)
    next
      case (Inr headerLine)
      obtain outH resH where hdr: "validateHeader headerLine referenceCSVheader v = (outH, resH)"
        by (cases "validateHeader headerLine referenceCSVheader v")
      with validateHeader_prints [of headerLine referenceCSVheader v]
      have pH: "list_all isPrint outH" by simp
      show ?thesis
      proof (cases resH)
        case Panic
        with Some Pair Inr hdr pH show ?thesis by (simp add: loadPrListFile_def)
      next
        case (Return valid)
        show ?thesis
        proof (cases valid)
          case False
          with Some Pair Inr hdr pH Return show ?thesis by (simp add: loadPrListFile_def)
        next
          case True
          show ?thesis
          proof (cases "csv_ReadAll r []")
            case (Inl err)
            with Some Pair Inr hdr pH Return True show ?thesis by (simp add: loadPrListFile_def)
          next
            case all: (Inr records)
            obtain outL resL where loop: "checkRecords c d v records [] = (outL, resL)"
              by (cases "checkRecords c d v records []")
            with checkRecords_prints [of c d v records "[]"]
            have pL: "list_all isPrint outL" by simp
            show ?thesis
            proof (cases resL)
              case Panic
              with Some Pair Inr hdr pH Return True all loop pL show ?thesis
                by (cases v; cases "length records < 2") (simp_all add: loadPrListFile_def)
            next
              case ret: (Return loaded)
              obtain prList ok where loaded: "loaded = (prList, ok)"
                by (cases loaded)
              show ?thesis
                using Some Pair Inr hdr pH Return True all loop pL ret loaded
                by (cases ok; cases v; cases "length records < 2") (simp_all add: loadPrListFile_def)
            qed
          qed
        qed
      qed
    qed
  qed
qed

lemma isPrint_isReport: "list_all isPrint es \<Longrightarrow> list_all isReport es"
proof (induction es)
  case Nil
  then show ?case by simp
next
  case (Cons e es)
  then show ?case by (cases e) simp_all
qed

lemma reports_are_neutral:
  "list_all isReport es \<Longrightarrow>
   filter isFetch es = [] \<and> filter isQuotaCheck es = [] \<and> returnedCounts es = [] \<and>
   list_all (\<lambda>e. appendArgument e \<noteq> Some False) es \<and> OsRemove fileName \<notin> set es"
proof (induction es)
  case Nil
  then show ?case by simp
next
  case (Cons e es)
  then show ?case by (cases e) simp_all
qed

lemma batchLoop_step:
  assumes fetch: "getCommenters c pr_line a (globalIsNoHeader g) (outputFileName g) w = (n, w1)"
  obtains outBar w2 where "list_all isReport outBar"
    and "batchLoop c g a (pr_line # rest) acct w =
           (case batchLoop c g a rest
                   (if n = 0 then
                      acct\<lparr>totalComments := totalComments acct + n,
                           nbrPR_noComment := nbrPR_noComment acct + 1\<rparr>
                    else
                      acct\<lparr>totalComments := totalComments acct + n,
                           nbrPR_withComments := nbrPR_withComments acct + 1\<rparr>) w2 of
              (out, acct', w') \<Rightarrow>
                (GetCommenters pr_line a (globalIsNoHeader g) (outputFileName g) n # outBar @ out,
                 acct', w'))"
proof (cases "isVerbose g")
  case True
  show ?thesis
    by (rule that [of "[]" w1]) (use fetch True in \<open>simp_all split: prod.splits\<close>)
next
  case False
  obtain err w2 where bar: "barAdd c 1 w1 = (err, w2)"
    by (cases "barAdd c 1 w1")
  show ?thesis
  proof (cases err)
    case None
    show ?thesis
      by (rule that [of "[BarAdd 1]" w2]) (use fetch False bar None in \<open>simp_all split: prod.splits\<close>)
  next
    case (Some e)
    show ?thesis
      by (rule that [of "[BarAdd 1, LogPrintf ''Unexpected error updating progress bar (%v)\<newline>'' [Err (Some e)]]" w2])
        (use fetch False bar Some in \<open>simp_all split: prod.splits\<close>)
  qed
qed

lemma tally_Cons:
  "tally (n # counts) =
     (if n = 0 then
        (tally counts)\<lparr>totalComments := n + totalComments (tally counts),
                       nbrPR_noComment := nbrPR_noComment (tally counts) + 1\<rparr>
      else
        (tally counts)\<lparr>totalComments := n + totalComments (tally counts),
                       nbrPR_withComments := nbrPR_withComments (tally counts) + 1\<rparr>)"
  by (simp add: tally_def)

text \<open>The counters read as numbers: the two tallies are the numbers of items, as a slice has
  fewer than \<open>2 ^ 64\<close> elements, and the total is the sum of the counts whenever that sum
  fits Go's \<^verbatim>\<open>int\<close>.\<close>

lemma tally_counts_exact:
  assumes "length counts < 2 ^ 64"
  shows "unat (nbrPR_noComment (tally counts)) = length (filter (\<lambda>n. n = 0) counts) \<and>
         unat (nbrPR_withComments (tally counts)) = length (filter (\<lambda>n. n \<noteq> 0) counts)"
proof -
  have a: "length (filter (\<lambda>n. n = 0) counts) < 2 ^ 64"
    by (rule le_less_trans [OF length_filter_le assms])
  have b: "length (filter (\<lambda>n. n \<noteq> 0) counts) < 2 ^ 64"
    by (rule le_less_trans [OF length_filter_le assms])
  from a b show ?thesis
    by (simp add: tally_def unat_of_nat)
qed

lemma sint_sum_list:
  "sint (sum_list counts :: go_int) = signed_take_bit 63 (\<Sum>n\<leftarrow>counts. sint n)"
proof (induction counts)
  case Nil
  then show ?case by simp
next
  case (Cons n counts)
  let ?S = "\<Sum>n\<leftarrow>counts. sint n"
  have "sint (n + sum_list counts) = signed_take_bit 63 (sint n + sint (sum_list counts))"
    by (simp add: sint_word_ariths)
  also have "\<dots> = signed_take_bit 63 (sint n + signed_take_bit 63 ?S)"
    by (simp only: Cons.IH)
  also have "\<dots> = signed_take_bit 63 (sint n + ?S)"
    using signed_take_bit_add [of 63 "sint n" "signed_take_bit 63 ?S"]
      signed_take_bit_add [of 63 "sint n" ?S]
    by simp
  finally show ?case by simp
qed

lemma tally_total_exact:
  assumes "- (2 ^ 63) \<le> (\<Sum>n\<leftarrow>counts. sint n)" and "(\<Sum>n\<leftarrow>counts. sint n) < 2 ^ 63"
  shows "sint (totalComments (tally counts)) = (\<Sum>n\<leftarrow>counts. sint n)"
  using assms by (simp add: tally_def sint_sum_list signed_take_bit_int_eq_self)

lemma batchLoop_accounting:
  "batchLoop c g a prs acct w = (out, acct', w') \<Longrightarrow>
   acct' =
     \<lparr>nbrPR_noComment = nbrPR_noComment acct + nbrPR_noComment (tally (returnedCounts out)),
      nbrPR_withComments = nbrPR_withComments acct + nbrPR_withComments (tally (returnedCounts out)),
      totalComments = totalComments acct + totalComments (tally (returnedCounts out))\<rparr> \<and>
   length (returnedCounts out) = length prs"
proof (induction prs arbitrary: acct w out acct' w')
  case Nil
  then show ?case by (simp add: tally_def)
next
  case (Cons pr_line rest)
  obtain n w1 where fetch: "getCommenters c pr_line a (globalIsNoHeader g) (outputFileName g) w = (n, w1)"
    by (cases "getCommenters c pr_line a (globalIsNoHeader g) (outputFileName g) w")
  let ?acct2 = "if n = 0 then
                  acct\<lparr>totalComments := totalComments acct + n,
                       nbrPR_noComment := nbrPR_noComment acct + 1\<rparr>
                else
                  acct\<lparr>totalComments := totalComments acct + n,
                       nbrPR_withComments := nbrPR_withComments acct + 1\<rparr>"
  from batchLoop_step [OF fetch, of rest acct]
  obtain outBar w2 where bar: "list_all isReport outBar"
    and step: "batchLoop c g a (pr_line # rest) acct w =
           (case batchLoop c g a rest ?acct2 w2 of
              (out, acct', w') \<Rightarrow>
                (GetCommenters pr_line a (globalIsNoHeader g) (outputFileName g) n # outBar @ out,
                 acct', w'))"
    by blast
  obtain out2 acct2' w2' where more: "batchLoop c g a rest ?acct2 w2 = (out2, acct2', w2')"
    by (cases "batchLoop c g a rest ?acct2 w2") 
  from Cons.prems step more
  have out: "out = GetCommenters pr_line a (globalIsNoHeader g) (outputFileName g) n # outBar @ out2"
    and acct': "acct' = acct2'"
    by simp_all
  from bar have counts: "returnedCounts out = n # returnedCounts out2"
    by (simp add: out returnedCounts_append reports_are_neutral)
  from Cons.IH [OF more] show ?case
    unfolding acct' counts tally_Cons by (cases acct) simp
qed

lemma batchLoop_events:
  "batchLoop c g a prs acct w = (out, acct', w') \<Longrightarrow>
   filter isQuotaCheck out = [] \<and> list_all (\<lambda>e. appendArgument e \<noteq> Some (\<not> a)) out \<and>
   OsRemove fileName \<notin> set out"
proof (induction prs arbitrary: acct w out acct' w')
  case Nil
  then show ?case by simp
next
  case (Cons pr_line rest)
  obtain n w1 where fetch: "getCommenters c pr_line a (globalIsNoHeader g) (outputFileName g) w = (n, w1)"
    by (cases "getCommenters c pr_line a (globalIsNoHeader g) (outputFileName g) w")
  let ?acct2 = "if n = 0 then
                  acct\<lparr>totalComments := totalComments acct + n,
                       nbrPR_noComment := nbrPR_noComment acct + 1\<rparr>
                else
                  acct\<lparr>totalComments := totalComments acct + n,
                       nbrPR_withComments := nbrPR_withComments acct + 1\<rparr>"
  from batchLoop_step [OF fetch, of rest acct]
  obtain outBar w2 where bar: "list_all isReport outBar"
    and step: "batchLoop c g a (pr_line # rest) acct w =
           (case batchLoop c g a rest ?acct2 w2 of
              (out, acct', w') \<Rightarrow>
                (GetCommenters pr_line a (globalIsNoHeader g) (outputFileName g) n # outBar @ out,
                 acct', w'))"
    by blast
  obtain out2 acct2' w2' where more: "batchLoop c g a rest ?acct2 w2 = (out2, acct2', w2')"
    by (cases "batchLoop c g a rest ?acct2 w2")
  from Cons.prems step more
  have out: "out = GetCommenters pr_line a (globalIsNoHeader g) (outputFileName g) n # outBar @ out2"
    by simp
  from reports_are_neutral [OF bar, of fileName]
  have b1: "filter isQuotaCheck outBar = []"
    and b2: "list_all (\<lambda>e. appendArgument e \<noteq> Some False) outBar"
    and b3: "OsRemove fileName \<notin> set outBar"
    and b4: "returnedCounts outBar = []"
    by simp_all
  have b2': "list_all (\<lambda>e. appendArgument e \<noteq> Some (\<not> a)) outBar"
    using bar
  proof (induction outBar)
    case Nil
    then show ?case by simp
  next
    case (Cons e es)
    then show ?case by (cases e) simp_all
  qed
  from Cons.IH [OF more] b1 b2' b3 show ?case
    by (simp add: out)
qed

lemma prepareOutput_cases:
  obtains w2 where "prepareOutput c g w = ([], True, w2)"
  | w2 where "\<not> globalIsAppend g" "fileExist c (outputFileName g) w"
      "prepareOutput c g w = ([OsRemove (outputFileName g)], True, w2)"
  by (cases "globalIsAppend g"; cases "fileExist c (outputFileName g) w")
    (simp_all add: prepareOutput_def)

lemma performAction_outcomes:
  obtains (failed) out0 out1 prList where
      "loadPrListFile c (isRootDebug g) w inputFile (isVerbose g) = (out1, Return (prList, False))"
      "list_all isPrint out0"
      "performAction c g inputFile w =
         (out0 @ out1 @ [Printf ''Could not load \"%s\"\<newline>'' [Str inputFile]], OsExit 1, w)"
  | (loaded) out0 out1 prList out2 isAppend w2 out4 out5 acct w5 out6 where
      "loadPrListFile c (isRootDebug g) w inputFile (isVerbose g) = (out1, Return (prList, True))"
      "prepareOutput c g w = (out2, isAppend, w2)"
      "batchLoop c g isAppend prList
         \<lparr>nbrPR_noComment = 0, nbrPR_withComments = 0, totalComments = 0\<rparr> w2 = (out5, acct, w5)"
      "list_all isPrint out0" "list_all isReport out4" "list_all isPrint out6"
      "performAction c g inputFile w =
         (if \<not> checkIfSufficientQuota c (len prList) w2 then
            (out0 @ out1 @ out2 @ [CheckIfSufficientQuota (len prList)], QuotaHalt, w2)
          else
            (out0 @ out1 @ out2 @ CheckIfSufficientQuota (len prList) # out4 @ out5 @ out6,
             Returned acct, w5))"
proof -
  obtain out1 res where load: "loadPrListFile c (isRootDebug g) w inputFile (isVerbose g) = (out1, res)"
    by (cases "loadPrListFile c (isRootDebug g) w inputFile (isVerbose g)")
  with loadPrListFile_never_panics [of c "isRootDebug g" w inputFile "isVerbose g"]
  obtain prList ok where res: "res = Return (prList, ok)"
    by (cases res) auto
  let ?out0 = "Printf ''Processing \"%s\"\<newline>'' [Str inputFile] #
                 (if isRootDebug g then [DebugPrintf ''Processing \"%s\"\<newline>'' [Str inputFile]]
                  else [])"
  have p0: "list_all isPrint ?out0" by simp
  show ?thesis
  proof (cases ok)
    case False
    show ?thesis
      by (rule failed [of out1 prList ?out0])
        (use load res False in \<open>simp_all add: performAction_def\<close>)
  next
    case True
    obtain out2 isAppend w2 where prep: "prepareOutput c g w = (out2, isAppend, w2)"
      by (cases "prepareOutput c g w")
    obtain out5 acct w5 where loop:
      "batchLoop c g isAppend prList
         \<lparr>nbrPR_noComment = 0, nbrPR_withComments = 0, totalComments = 0\<rparr> w2 = (out5, acct, w5)"
      by (cases "batchLoop c g isAppend prList
         \<lparr>nbrPR_noComment = 0, nbrPR_withComments = 0, totalComments = 0\<rparr> w2")
    let ?out4 = "if \<not> isVerbose g then [ProgressbarDefault (len prList)] else []"
    let ?out6 = "[Printf ''Nbr of PR without comments: %d\<newline>'' [Num (nbrPR_noComment acct)],
                  Printf ''Nbr of PR with comments:    %d\<newline>'' [Num (nbrPR_withComments acct)],
                  Printf ''Total comments:             %d\<newline>'' [Num (totalComments acct)]] @
                 (if isRootDebug g then
                    [DebugPrintf ''Nbr of PR without comments: %d\<newline>'' [Num (nbrPR_noComment acct)],
                     DebugPrintf ''Nbr of PR with comments:    %d\<newline>''
                       [Num (nbrPR_withComments acct)],
                     DebugPrintf ''Total comments:             %d\<newline>'' [Num (totalComments acct)]]
                  else [])"
    show ?thesis
    proof (rule loaded [of out1 prList out2 isAppend w2 out5 acct w5 ?out0 ?out4 ?out6])
      show "loadPrListFile c (isRootDebug g) w inputFile (isVerbose g) = (out1, Return (prList, True))"
        using load res True by simp
      show "performAction c g inputFile w =
         (if \<not> checkIfSufficientQuota c (len prList) w2 then
            (?out0 @ out1 @ out2 @ [CheckIfSufficientQuota (len prList)], QuotaHalt, w2)
          else
            (?out0 @ out1 @ out2 @ CheckIfSufficientQuota (len prList) # ?out4 @ out5 @ ?out6,
             Returned acct, w5))"
        using load res True prep loop
        by (cases "checkIfSufficientQuota c (len prList) w2") (simp_all add: performAction_def)
    qed (use prep loop in simp_all)
  qed
qed

lemma filter_isFetch_returnedCounts: "filter isFetch es = [] \<longleftrightarrow> returnedCounts es = []"
  by (induction es rule: returnedCounts.induct) simp_all

text \<open>
  C7. Whatever counts the fetch collaborator returns over the work list, when
  \<^verbatim>\<open>performAction\<close> returns its three counters are: the number of returned counts that are
  zero, the number of those that are not, and the sum of all returned counts (numbers and sum
  in Go's \<^verbatim>\<open>int\<close>). The counts \<open>[0, 3, 0]\<close> give \<open>(2, 1, 3)\<close>, as the run on three
  work items after the theorems shows.
\<close>

theorem accounting_matches_returned_counts:
  assumes run: "performAction c g inputFile w = (events, Returned acct, w')"
  shows "acct = tally (returnedCounts events)"
proof (cases rule: performAction_outcomes [of c g w inputFile])
  case (failed out0 out1 prList)
  with run show ?thesis by simp
next
  case (loaded out0 out1 prList out2 isAppend w2 out4 out5 acct5 w5 out6)
  from run loaded(7)
  have events: "events = out0 @ out1 @ out2 @ CheckIfSufficientQuota (len prList) # out4 @ out5 @ out6"
    and acct: "acct = acct5"
    by (simp_all split: if_splits)
  have n0: "returnedCounts out0 = []" and n6: "returnedCounts out6 = []"
    using loaded(4,6) by (simp_all add: isPrint_isReport reports_are_neutral)
  have n1: "returnedCounts out1 = []"
    using loadPrListFile_prints [of c "isRootDebug g" w inputFile "isVerbose g"] loaded(1)
    by (simp add: isPrint_isReport reports_are_neutral)
  have n2: "returnedCounts out2 = []"
    using loaded(2) by (cases rule: prepareOutput_cases [of c g w]) auto
  have n4: "returnedCounts out4 = []"
    using loaded(5) by (simp add: reports_are_neutral)
  have "returnedCounts events = returnedCounts out5"
    by (simp add: events returnedCounts_append n0 n1 n2 n4 n6)
  with batchLoop_accounting [OF loaded(3)] acct show ?thesis
    by simp
qed

text \<open>
  C8. In a run whose input loaded, \<^verbatim>\<open>checkIfSufficientQuota\<close> is called exactly once, with
  the length of the work list, and before every call of the fetch collaborator; and when the
  remaining quota is below the projected cost of the work items, the run ends in that call
  and the fetch collaborator is never called.
\<close>

theorem quota_preflight:
  assumes load: "snd (loadPrListFile c (isRootDebug g) w inputFile (isVerbose g)) = Return (prList, True)"
    and run: "performAction c g inputFile w = (events, how, w')"
  shows "filter isQuotaCheck events = [CheckIfSufficientQuota (len prList)] \<and>
         (\<exists>pre post. events = pre @ CheckIfSufficientQuota (len prList) # post \<and>
            filter isFetch pre = []) \<and>
         (quotaRemaining c (snd (snd (prepareOutput c g w))) < projectedCost c (len prList) \<longrightarrow>
            how = QuotaHalt \<and> filter isFetch events = [])"
proof (cases rule: performAction_outcomes [of c g w inputFile])
  case (failed out0 out1 prList')
  with load show ?thesis by simp
next
  case (loaded out0 out1 prList' out2 isAppend w2 out4 out5 acct5 w5 out6)
  from load loaded(1) have same: "prList' = prList" by simp
  have n0: "filter isFetch out0 = [] \<and> filter isQuotaCheck out0 = []"
    and n6: "filter isFetch out6 = [] \<and> filter isQuotaCheck out6 = []"
    using loaded(4,6) by (simp_all add: isPrint_isReport reports_are_neutral)
  have n1: "filter isFetch out1 = [] \<and> filter isQuotaCheck out1 = []"
    using loadPrListFile_prints [of c "isRootDebug g" w inputFile "isVerbose g"] loaded(1)
    by (simp add: isPrint_isReport reports_are_neutral)
  have n2: "filter isFetch out2 = [] \<and> filter isQuotaCheck out2 = []"
    using loaded(2) by (cases rule: prepareOutput_cases [of c g w]) auto
  have n4: "filter isQuotaCheck out4 = []"
    using loaded(5) by (simp add: reports_are_neutral)
  have n5: "filter isQuotaCheck out5 = []"
    using batchLoop_events [OF loaded(3)] by simp
  let ?pre = "out0 @ out1 @ out2"
  have pre: "filter isFetch ?pre = []" "filter isQuotaCheck ?pre = []"
    using n0 n1 n2 by simp_all
  show ?thesis
  proof (cases "checkIfSufficientQuota c (len prList) w2")
    case True
    with run loaded(7) same
    have events: "events = ?pre @ CheckIfSufficientQuota (len prList) # out4 @ out5 @ out6"
      by simp
    have once: "filter isQuotaCheck events = [CheckIfSufficientQuota (len prList)]"
      unfolding events using pre n4 n5 n6 by simp
    have before: "\<exists>pre post. events = pre @ CheckIfSufficientQuota (len prList) # post \<and>
            filter isFetch pre = []"
      using events pre(1) by blast
    from True loaded(2) have "\<not> quotaRemaining c (snd (snd (prepareOutput c g w))) < projectedCost c (len prList)"
      by (simp add: checkIfSufficientQuota_def)
    with once before show ?thesis by simp
  next
    case False
    with run loaded(7) same
    have events: "events = ?pre @ CheckIfSufficientQuota (len prList) # []" and how: "how = QuotaHalt"
      by simp_all
    have once: "filter isQuotaCheck events = [CheckIfSufficientQuota (len prList)]"
      unfolding events using pre by simp
    have none: "filter isFetch events = []"
      unfolding events using pre by simp
    have before: "\<exists>pre post. events = pre @ CheckIfSufficientQuota (len prList) # post \<and>
            filter isFetch pre = []"
      using events pre(1) by blast
    from once before how none show ?thesis by simp
  qed
qed

text \<open>
  C9. When \<^verbatim>\<open>loadPrListFile\<close> fails, \<^verbatim>\<open>performAction\<close> prints
  \<^verbatim>\<open>Could not load "<file>"\<close> after the diagnostics of the load and ends the process with
  \<^verbatim>\<open>os.Exit(1)\<close>: every event of the run is a print, so the output file is not removed and
  the fetch collaborator, which writes it, is not called, and the outside world is as it
  was.
\<close>

theorem load_failure_exits_before_output:
  assumes "snd (loadPrListFile c (isRootDebug g) w inputFile (isVerbose g)) = Return (prList, False)"
  shows "performAction c g inputFile w =
           (Printf ''Processing \"%s\"\<newline>'' [Str inputFile] #
            (if isRootDebug g then [DebugPrintf ''Processing \"%s\"\<newline>'' [Str inputFile]] else []) @
            fst (loadPrListFile c (isRootDebug g) w inputFile (isVerbose g)) @
            [Printf ''Could not load \"%s\"\<newline>'' [Str inputFile]],
            OsExit 1, w) \<and>
         list_all isPrint (fst (performAction c g inputFile w))"
proof -
  obtain out1 where load: "loadPrListFile c (isRootDebug g) w inputFile (isVerbose g) = (out1, Return (prList, False))"
    using assms by (cases "loadPrListFile c (isRootDebug g) w inputFile (isVerbose g)") simp
  with loadPrListFile_prints [of c "isRootDebug g" w inputFile "isVerbose g"]
  have "list_all isPrint out1" by simp
  with load show ?thesis
    by (simp add: performAction_def)
qed

text \<open>
  C10. In every run the append argument of every call of the fetch collaborator is true,
  whatever \<^verbatim>\<open>globalIsAppend\<close> is: \<^verbatim>\<open>isAppend\<close> is true after the preparation of the
  output. When the run is not in append mode and the output file exists, \<^verbatim>\<open>os.Remove\<close> is
  called on it before the first call of the fetch collaborator.
\<close>

theorem fetch_always_appends:
  assumes run: "performAction c g inputFile w = (events, how, w')"
  shows "list_all (\<lambda>e. appendArgument e \<noteq> Some False) events \<and>
         fst (snd (prepareOutput c g w)) \<and>
         (\<not> globalIsAppend g \<and> fileExist c (outputFileName g) w \<and> filter isFetch events \<noteq> [] \<longrightarrow>
            (\<exists>pre post. events = pre @ OsRemove (outputFileName g) # post \<and> filter isFetch pre = []))"
proof (cases rule: performAction_outcomes [of c g w inputFile])
  case (failed out0 out1 prList)
  have p1: "list_all isPrint out1"
    using loadPrListFile_prints [of c "isRootDebug g" w inputFile "isVerbose g"] failed(1) by simp
  from run failed(3) have events: "events = out0 @ out1 @ [Printf ''Could not load \"%s\"\<newline>'' [Str inputFile]]"
    by simp
  have "list_all isPrint events"
    unfolding events using failed(2) p1 by simp
  then have "list_all (\<lambda>e. appendArgument e \<noteq> Some False) events" and "filter isFetch events = []"
    by (simp_all add: isPrint_isReport reports_are_neutral)
  moreover have "fst (snd (prepareOutput c g w))"
    by (cases rule: prepareOutput_cases [of c g w]) simp_all
  ultimately show ?thesis by simp
next
  case (loaded out0 out1 prList out2 isAppend w2 out4 out5 acct5 w5 out6)
  have flag: "fst (snd (prepareOutput c g w))"
    by (cases rule: prepareOutput_cases [of c g w]) simp_all
  with loaded(2) have app: "isAppend" by simp
  have r0: "list_all isReport out0" and r6: "list_all isReport out6"
    using loaded(4,6) by (simp_all add: isPrint_isReport)
  have r1: "list_all isReport out1"
    using loadPrListFile_prints [of c "isRootDebug g" w inputFile "isVerbose g"] loaded(1)
    by (simp add: isPrint_isReport)
  note n0 = reports_are_neutral [OF r0, of "outputFileName g"]
    and n1 = reports_are_neutral [OF r1, of "outputFileName g"]
    and n4 = reports_are_neutral [OF loaded(5), of "outputFileName g"]
    and n6 = reports_are_neutral [OF r6, of "outputFileName g"]
  have a2: "list_all (\<lambda>e. appendArgument e \<noteq> Some False) out2"
    using loaded(2) by (cases rule: prepareOutput_cases [of c g w]) auto
  have a5: "list_all (\<lambda>e. appendArgument e \<noteq> Some False) out5"
    using batchLoop_events [OF loaded(3), of "outputFileName g"] app by simp
  have ev: "events = out0 @ out1 @ out2 @ [CheckIfSufficientQuota (len prList)] \<or>
            events = out0 @ out1 @ out2 @ CheckIfSufficientQuota (len prList) # out4 @ out5 @ out6"
    using run loaded(7) by (simp split: if_splits)
  then have all: "list_all (\<lambda>e. appendArgument e \<noteq> Some False) events"
    using n0 n1 n4 n6 a2 a5 by auto
  have removal: "\<exists>pre post. events = pre @ OsRemove (outputFileName g) # post \<and> filter isFetch pre = []"
    if mode: "\<not> globalIsAppend g" "fileExist c (outputFileName g) w"
  proof -
    from mode loaded(2) have out2: "out2 = [OsRemove (outputFileName g)]"
      by (simp add: prepareOutput_def)
    have pre: "filter isFetch (out0 @ out1) = []"
      using n0 n1 by simp
    from ev show ?thesis
    proof
      assume "events = out0 @ out1 @ out2 @ [CheckIfSufficientQuota (len prList)]"
      then have "events = (out0 @ out1) @ OsRemove (outputFileName g) # [CheckIfSufficientQuota (len prList)]"
        by (simp add: out2)
      with pre show ?thesis by blast
    next
      assume "events = out0 @ out1 @ out2 @ CheckIfSufficientQuota (len prList) # out4 @ out5 @ out6"
      then have "events = (out0 @ out1) @ OsRemove (outputFileName g) #
                   (CheckIfSufficientQuota (len prList) # out4 @ out5 @ out6)"
        by (simp add: out2)
      with pre show ?thesis by blast
    qed
  qed
  from all flag removal show ?thesis by blast
qed

lemma threeRows_loaded:
  "loadPrListFile (scripted threeRows q) False w ''prs.csv'' False =
     ([], Return ([''acme/widget-api/42'', ''Acme/Widget.API/7'', ''acme/x/8''], True))"
  by code_simp

lemma threeRows_run:
  "performAction (scripted threeRows 10) quiet ''prs.csv'' [0, 3, 0] =
     ([Printf ''Processing \"%s\"\<newline>'' [Str ''prs.csv''],
       OsRemove ''out.csv'', CheckIfSufficientQuota 3, ProgressbarDefault 3,
       GetCommenters ''acme/widget-api/42'' True False ''out.csv'' 0, BarAdd 1,
       GetCommenters ''Acme/Widget.API/7'' True False ''out.csv'' 3, BarAdd 1,
       GetCommenters ''acme/x/8'' True False ''out.csv'' 0, BarAdd 1,
       Printf ''Nbr of PR without comments: %d\<newline>'' [Num 2],
       Printf ''Nbr of PR with comments:    %d\<newline>'' [Num 1],
       Printf ''Total comments:             %d\<newline>'' [Num 3]],
      Returned \<lparr>nbrPR_noComment = 2, nbrPR_withComments = 1, totalComments = 3\<rparr>, [])"
  by code_simp

theorem accounting_matches_returned_counts_witness:
  "returnedCounts (fst (performAction (scripted threeRows 10) quiet ''prs.csv'' [0, 3, 0])) = [0, 3, 0] \<and>
   fst (snd (performAction (scripted threeRows 10) quiet ''prs.csv'' [0, 3, 0])) = Returned (tally [0, 3, 0]) \<and>
   tally [0, 3, 0] = \<lparr>nbrPR_noComment = 2, nbrPR_withComments = 1, totalComments = 3\<rparr>"
  using accounting_matches_returned_counts [OF threeRows_run]
  by (simp add: threeRows_run tally_def)

theorem quota_preflight_witness:
  "filter isQuotaCheck (fst (performAction (scripted threeRows 2) quiet ''prs.csv'' [0, 3, 0])) =
     [CheckIfSufficientQuota 3] \<and>
   fst (snd (performAction (scripted threeRows 2) quiet ''prs.csv'' [0, 3, 0])) = QuotaHalt \<and>
   filter isFetch (fst (performAction (scripted threeRows 2) quiet ''prs.csv'' [0, 3, 0])) = []"
proof -
  have load: "snd (loadPrListFile (scripted threeRows 2) (isRootDebug quiet) [0, 3, 0] ''prs.csv''
                (isVerbose quiet)) =
              Return ([''acme/widget-api/42'', ''Acme/Widget.API/7'', ''acme/x/8''], True)"
    by (simp add: quiet_def threeRows_loaded)
  have run: "performAction (scripted threeRows 2) quiet ''prs.csv'' [0, 3, 0] =
               (fst (performAction (scripted threeRows 2) quiet ''prs.csv'' [0, 3, 0]),
                fst (snd (performAction (scripted threeRows 2) quiet ''prs.csv'' [0, 3, 0])),
                snd (snd (performAction (scripted threeRows 2) quiet ''prs.csv'' [0, 3, 0])))"
    by simp
  have short: "quotaRemaining (scripted threeRows 2)
                 (snd (snd (prepareOutput (scripted threeRows 2) quiet [0, 3, 0]))) <
               projectedCost (scripted threeRows 2)
                 (len [''acme/widget-api/42'', ''Acme/Widget.API/7'', ''acme/x/8''])"
    by (simp add: scripted_def len_def)
  from quota_preflight [OF load run] short show ?thesis
    by (simp add: len_def)
qed

theorem load_failure_exits_before_output_witness:
  "performAction
     (scripted [Record [''org'', ''repository'', ''number'', ''url'', ''state'', ''created_at'',
                        ''merged_at'', ''user.login'', ''month_year''],
                Record (dataRow ''acme'' ''widget-api'' ''42'')] 10)
     quiet ''prs.csv'' [0, 3, 0] =
     ([Printf ''Processing \"%s\"\<newline>'' [Str ''prs.csv''],
       Println '' Error: header is incorrect.'',
       Printf ''Could not load \"%s\"\<newline>'' [Str ''prs.csv'']],
      OsExit 1, [0, 3, 0])"
proof -
  let ?c = "scripted [Record [''org'', ''repository'', ''number'', ''url'', ''state'', ''created_at'',
                        ''merged_at'', ''user.login'', ''month_year''],
                Record (dataRow ''acme'' ''widget-api'' ''42'')] 10"
  have load: "loadPrListFile ?c False [0, 3, 0] ''prs.csv'' False =
                ([Println '' Error: header is incorrect.''], Return ([], False))"
    by code_simp
  then have "snd (loadPrListFile ?c (isRootDebug quiet) [0, 3, 0] ''prs.csv'' (isVerbose quiet)) =
               Return ([], False)"
    by (simp add: quiet_def)
  from load_failure_exits_before_output [OF this] load show ?thesis
    by (simp add: quiet_def)
qed

theorem fetch_always_appends_witness:
  "list_all (\<lambda>e. appendArgument e \<noteq> Some False)
     (fst (performAction (scripted threeRows 10) quiet ''prs.csv'' [0, 3, 0])) \<and>
   fst (snd (prepareOutput (scripted threeRows 10) quiet [0, 3, 0])) \<and>
   (\<exists>pre post. fst (performAction (scripted threeRows 10) quiet ''prs.csv'' [0, 3, 0]) =
        pre @ OsRemove ''out.csv'' # post \<and> filter isFetch pre = [])"
proof -
  have run: "performAction (scripted threeRows 10) quiet ''prs.csv'' [0, 3, 0] =
               (fst (performAction (scripted threeRows 10) quiet ''prs.csv'' [0, 3, 0]),
                fst (snd (performAction (scripted threeRows 10) quiet ''prs.csv'' [0, 3, 0])),
                snd (snd (performAction (scripted threeRows 10) quiet ''prs.csv'' [0, 3, 0])))"
    by simp
  have mode: "\<not> globalIsAppend quiet" "fileExist (scripted threeRows 10) (outputFileName quiet) [0, 3, 0]"
    by (simp_all add: quiet_def scripted_def)
  have some: "filter isFetch (fst (performAction (scripted threeRows 10) quiet ''prs.csv'' [0, 3, 0])) \<noteq> []"
    by (simp add: threeRows_run)
  from fetch_always_appends [OF run] mode some show ?thesis
    by (simp add: quiet_def)
qed

end
